theory Spec2Isabelle
  imports Main "HOL-Library.Word"
begin

unbundle bit_operations_syntax

section \<open>KNXnet/IP framing: the data of \<open>knx/proto/proto.go\<close>\<close>

text \<open>
  Bytes are 8-bit words and a \<open>ServiceID\<close> is Go's \<open>uint16\<close>. Go's \<open>uint\<close> (the
  consumed-byte count of \<open>Unpack\<close>) and \<open>int64\<close> (the written-byte count of \<open>Pack\<close>) are
  taken at 64 bits, so \<open>+\<close> on them wraps as it does on a 64-bit target.
\<close>

type_synonym byte = "8 word"
type_synonym ServiceID = "16 word"
type_synonym go_uint = "64 word"
type_synonym go_int64 = "64 word"

definition ConnReqService :: ServiceID where "ConnReqService = 0x0205"
definition ConnResService :: ServiceID where "ConnResService = 0x0206"
definition ConnStateReqService :: ServiceID where "ConnStateReqService = 0x0207"
definition ConnStateResService :: ServiceID where "ConnStateResService = 0x0208"
definition DiscReqService :: ServiceID where "DiscReqService = 0x0209"
definition DiscResService :: ServiceID where "DiscResService = 0x020a"
definition TunnelReqService :: ServiceID where "TunnelReqService = 0x0420"
definition TunnelResService :: ServiceID where "TunnelResService = 0x0421"
definition RoutingIndService :: ServiceID where "RoutingIndService = 0x0530"
definition RoutingLostService :: ServiceID where "RoutingLostService = 0x0531"
definition RoutingBusyService :: ServiceID where "RoutingBusyService = 0x0532"

text \<open>
  The three errors declared in \<open>proto.go\<close>, \<open>io.ErrUnexpectedEOF\<close> for an input that
  ends inside a field, and any error value of a collaborator (a payload's serializer, a
  body parser, the output sink), which this layer only passes on.
\<close>

datatype 'e error =
    ErrHeaderLength
  | ErrHeaderVersion
  | ErrUnknownService
  | ErrUnexpectedEOF
  | ErrCollaborator 'e

text \<open>
  The eleven message types that \<open>Unpack\<close> can instantiate. Their fields live in other
  files of the package; a parsed message is its type together with its contents \<open>'b\<close>.
\<close>

datatype kind =
    ConnReq | ConnRes | ConnStateReq | ConnStateRes | DiscReq | DiscRes
  | TunnelReq | TunnelRes | RoutingInd | RoutingLost | RoutingBusy

datatype 'b service = Srv kind 'b

text \<open>
  The collaborator \<open>body.Unpack(data)\<close> of a freshly allocated message of a kind: the
  bytes it reports consumed, its error, and the contents of the message afterwards.
\<close>

type_synonym ('e, 'b) body_unpack = "kind \<Rightarrow> byte list \<Rightarrow> go_uint \<times> 'e error option \<times> 'b"

text \<open>
  An \<open>io.Writer\<close>: from the sink's state and the bytes offered, the new state, the count
  it reports written and its error.
\<close>

type_synonym ('s, 'e) writer = "'s \<Rightarrow> byte list \<Rightarrow> 's \<times> go_int64 \<times> 'e error option"

text \<open>
  A \<open>ServiceWriterTo\<close> as \<open>Pack\<close> observes it: the result of \<open>srv.Service()\<close>, and the
  result of \<open>srv.WriteTo(&dataBuffer)\<close> on an empty \<open>bytes.Buffer\<close>, that is the bytes
  it appended to the buffer and its error (\<open>Pack\<close> drops the count it returns).
\<close>

record 'e ServiceWriterTo =
  Service :: ServiceID
  WriteTo :: "byte list \<times> 'e error option"

record header =
  headerLen :: byte
  version :: byte
  srvID :: ServiceID
  totalLen :: "16 word"

section \<open>The helpers of \<open>knx/util\<close> and \<open>knx/encoding\<close>\<close>

text \<open>
  Modelled from the spec: \<open>util.UnpackSome\<close> lives in package \<open>knx/util\<close>, outside
  \<open>proto.go\<close>. Following sections 4.1 and 4.3 it parses the header fields one after the other from the front
  of the input, multi-byte fields big-endian, and a successful parse of the four fields
  has consumed 6 bytes. A field that does not fit in the remaining input fails with the
  short-input error and consumes nothing; the count returned is what the fields before
  it consumed.
\<close>

fun unpack_uint8 :: "byte list \<Rightarrow> go_uint \<times> 'e error option \<times> byte" where
  "unpack_uint8 [] = (0, Some ErrUnexpectedEOF, 0)"
| "unpack_uint8 (b # _) = (1, None, b)"

fun unpack_uint16 :: "byte list \<Rightarrow> go_uint \<times> 'e error option \<times> 16 word" where
  "unpack_uint16 (hi # lo # _) = (2, None, push_bit 8 (ucast hi) OR ucast lo)"
| "unpack_uint16 _ = (0, Some ErrUnexpectedEOF, 0)"

definition UnpackSome :: "byte list \<Rightarrow> go_uint \<times> 'e error option \<times> header" where
  "UnpackSome data =
    (let h0 = \<lparr>headerLen = 0, version = 0, srvID = 0, totalLen = 0\<rparr> in
     case unpack_uint8 data of
       (m1, Some e, _) \<Rightarrow> (m1, Some e, h0)
     | (m1, None, v1) \<Rightarrow>
    (let n1 = m1; h1 = h0\<lparr>headerLen := v1\<rparr> in
     case unpack_uint8 (drop (unat n1) data) of
       (m2, Some e, _) \<Rightarrow> (n1 + m2, Some e, h1)
     | (m2, None, v2) \<Rightarrow>
    (let n2 = n1 + m2; h2 = h1\<lparr>version := v2\<rparr> in
     case unpack_uint16 (drop (unat n2) data) of
       (m3, Some e, _) \<Rightarrow> (n2 + m3, Some e, h2)
     | (m3, None, v3) \<Rightarrow>
    (let n3 = n2 + m3; h3 = h2\<lparr>srvID := v3\<rparr> in
     case unpack_uint16 (drop (unat n3) data) of
       (m4, Some e, _) \<Rightarrow> (n3 + m4, Some e, h3)
     | (m4, None, v4) \<Rightarrow> (n3 + m4, None, h3\<lparr>totalLen := v4\<rparr>)))))"

text \<open>
  Modelled from the spec: \<open>encoding.WriteSome\<close> lives in package \<open>knx/encoding\<close>,
  outside \<open>proto.go\<close>. Following sections 4.2 and 6 it writes its arguments to the sink in order, a byte as
  itself and a 16-bit integer big-endian, stops at the first error of the sink, and
  returns the sum of the counts the sink reported.
\<close>

definition encode_uint8 :: "byte \<Rightarrow> byte list" where
  "encode_uint8 b = [b]"

definition encode_uint16 :: "16 word \<Rightarrow> byte list" where
  "encode_uint16 v = [ucast (drop_bit 8 v), ucast v]"

fun WriteSome :: "('s, 'e) writer \<Rightarrow> 's \<Rightarrow> byte list list \<Rightarrow> 's \<times> go_int64 \<times> 'e error option" where
  "WriteSome w s [] = (s, 0, None)"
| "WriteSome w s (item # items) =
    (case w s item of
       (s', m, Some e) \<Rightarrow> (s', m, Some e)
     | (s', m, None) \<Rightarrow>
         (case WriteSome w s' items of (s'', n, err) \<Rightarrow> (s'', m + n, err)))"

text \<open>An in-memory sink (\<open>bytes.Buffer\<close> as an \<open>io.Writer\<close>): it appends and never fails.\<close>

definition buffer_writer :: "(byte list, 'e) writer" where
  "buffer_writer s bs = (s @ bs, of_nat (length bs), None)"

section \<open>\<open>Pack\<close>\<close>

text \<open>
  \<open>Pack(w, srv)\<close>: the payload is serialized into \<open>dataBuffer\<close> first; on its error
  nothing is offered to the sink. \<open>uint16(dataBuffer.Len()+6)\<close> truncates the 64-bit
  sum to 16 bits.
\<close>

definition Pack :: "('s, 'e) writer \<Rightarrow> 's \<Rightarrow> 'e ServiceWriterTo \<Rightarrow> 's \<times> go_int64 \<times> 'e error option" where
  "Pack w s srv =
    (case WriteTo srv of
       (dataBuffer, Some err) \<Rightarrow> (s, 0, Some err)
     | (dataBuffer, None) \<Rightarrow>
         WriteSome w s
           [encode_uint8 6, encode_uint8 16, encode_uint16 (Service srv),
            encode_uint16 (ucast ((of_nat (length dataBuffer) :: 64 word) + 6)),
            dataBuffer])"

section \<open>\<open>Unpack\<close>\<close>

text \<open>The \<open>switch srvID\<close> of \<open>Unpack\<close>; \<open>None\<close> is its \<open>default\<close> branch.\<close>

definition registry :: "ServiceID \<Rightarrow> kind option" where
  "registry i =
    (if i = ConnReqService then Some ConnReq
     else if i = ConnResService then Some ConnRes
     else if i = ConnStateReqService then Some ConnStateReq
     else if i = ConnStateResService then Some ConnStateRes
     else if i = DiscReqService then Some DiscReq
     else if i = DiscResService then Some DiscRes
     else if i = TunnelReqService then Some TunnelReq
     else if i = TunnelResService then Some TunnelRes
     else if i = RoutingIndService then Some RoutingInd
     else if i = RoutingLostService then Some RoutingLost
     else if i = RoutingBusyService then Some RoutingBusy
     else None)"

text \<open>
  \<open>Unpack(data, srv)\<close>, with the output slot \<open>*srv\<close> passed in and returned: the result
  is the pair of the returned count and error, and the slot afterwards (\<open>None\<close> is a nil
  interface value).
\<close>

definition Unpack ::
  "('e, 'b) body_unpack \<Rightarrow> byte list \<Rightarrow> 'b service option
     \<Rightarrow> (go_uint \<times> 'e error option) \<times> 'b service option" where
  "Unpack body_Unpack data srv =
    (case UnpackSome data of
       (n, Some err, _) \<Rightarrow> ((n, Some err), srv)
     | (n, None, h) \<Rightarrow>
        (if headerLen h \<noteq> 6 then ((n, Some ErrHeaderLength), srv)
         else if version h \<noteq> 16 then ((n, Some ErrHeaderVersion), srv)
         else
           (case registry (srvID h) of
              None \<Rightarrow> ((n, Some ErrUnknownService), srv)
            | Some k \<Rightarrow>
                (case body_Unpack k (drop (unat n) data) of
                   (m, err, body) \<Rightarrow>
                     ((n + m, err), if err = None then Some (Srv k body) else srv)))))"

text \<open>
  Modelled from the spec: the \<open>Service()\<close> methods of the eleven message types are
  declared with the types, outside \<open>proto.go\<close>. By section 6 each kind reports its own ServiceID.
\<close>

fun service_of_kind :: "kind \<Rightarrow> ServiceID" where
  "service_of_kind ConnReq = ConnReqService"
| "service_of_kind ConnRes = ConnResService"
| "service_of_kind ConnStateReq = ConnStateReqService"
| "service_of_kind ConnStateRes = ConnStateResService"
| "service_of_kind DiscReq = DiscReqService"
| "service_of_kind DiscRes = DiscResService"
| "service_of_kind TunnelReq = TunnelReqService"
| "service_of_kind TunnelRes = TunnelResService"
| "service_of_kind RoutingInd = RoutingIndService"
| "service_of_kind RoutingLost = RoutingLostService"
| "service_of_kind RoutingBusy = RoutingBusyService"

text \<open>
  A message of one of the eleven kinds as a payload of \<open>Pack\<close>, given the serializers
  \<open>body_WriteTo\<close> of the kinds.
\<close>

definition payload_of ::
  "(kind \<Rightarrow> 'b \<Rightarrow> byte list \<times> 'e error option) \<Rightarrow> 'b service \<Rightarrow> 'e ServiceWriterTo" where
  "payload_of body_WriteTo x =
    (case x of Srv k b \<Rightarrow> \<lparr>Service = service_of_kind k, WriteTo = body_WriteTo k b\<rparr>)"

subsection \<open>A small collaborator to run the functions on\<close>

text \<open>
  Every kind's body is two bytes here. The parser reports how many bytes it took before
  it ran out of input; the serializer refuses a body whose first byte is 255.
\<close>

fun pair_body_Unpack :: "(string, byte \<times> byte) body_unpack" where
  "pair_body_Unpack k (a # b # _) = (2, None, (a, b))"
| "pair_body_Unpack k [a] = (1, Some ErrUnexpectedEOF, (a, 0))"
| "pair_body_Unpack k [] = (0, Some ErrUnexpectedEOF, (0, 0))"

fun pair_body_WriteTo :: "kind \<Rightarrow> byte \<times> byte \<Rightarrow> byte list \<times> string error option" where
  "pair_body_WriteTo k (a, b) =
    (if a = 255 then ([a], Some (ErrCollaborator ''reserved'')) else ([a, b], None))"

text \<open>A payload whose body is 65530 zero bytes, the shortest that overflows the length field.\<close>

definition bulk_payload :: "string ServiceWriterTo" where
  "bulk_payload = \<lparr>Service = RoutingIndService, WriteTo = (replicate 65530 0, None)\<rparr>"

text \<open>
  The count \<open>UnpackSome\<close> returns on an input of \<open>len < 6\<close> bytes: the bytes of the
  fields that were complete.
\<close>

definition short_count :: "nat \<Rightarrow> go_uint" where
  "short_count len = (if len = 0 then 0 else if len = 1 then 1 else if len < 4 then 2 else 4)"

section \<open>Properties\<close>

lemmas service_consts =
  ConnReqService_def ConnResService_def ConnStateReqService_def ConnStateResService_def
  DiscReqService_def DiscResService_def TunnelReqService_def TunnelResService_def
  RoutingIndService_def RoutingLostService_def RoutingBusyService_def

lemma UnpackSome_header:
  "UnpackSome (a # b # c # d # e # f # rest) =
     (6, None, \<lparr>headerLen = a, version = b,
                srvID = push_bit 8 (ucast c) OR ucast d,
                totalLen = push_bit 8 (ucast e) OR ucast f\<rparr>)"
  by (simp add: UnpackSome_def)

subsection \<open>Big-endian 16-bit fields as arithmetic\<close>

lemma be16_add:
  "push_bit 8 (ucast (c::8 word)) OR ucast (d::8 word) = (push_bit 8 (ucast c) + ucast d :: 16 word)"
  by (rule disjunctive_add[symmetric]) (auto simp: bit_push_bit_iff bit_ucast_iff dest: bit_imp_le_length)

lemma unat_byte_less: "unat (c::8 word) < 256"
  using unsigned_less[of c, where 'a=nat] by simp

lemma unat_be16:
  "unat (push_bit 8 (ucast (c::8 word)) OR ucast (d::8 word) :: 16 word) = 256 * unat c + unat d"
proof -
  have c: "unat c < 256" and d: "unat d < 256"
    by (rule unat_byte_less)+
  have 1: "unat (ucast d :: 16 word) = unat d"
    using d by (simp add: unsigned_ucast_eq take_bit_nat_eq_self)
  have 2: "unat (push_bit 8 (ucast c :: 16 word)) = 256 * unat c"
    using c by (simp add: push_bit_eq_mult unat_word_ariths unsigned_ucast_eq take_bit_nat_eq_self)
  show ?thesis
    using c d by (simp add: be16_add unat_word_ariths 1 2)
qed

lemma encode_hi: "(ucast (drop_bit 8 (v::16 word)) :: 8 word) = of_nat (unat v div 256)"
proof -
  have "(ucast (drop_bit 8 v) :: 8 word) = of_nat (unat (drop_bit 8 v))"
    by simp
  also have "unat (drop_bit 8 v) = unat v div 256"
    by (simp add: drop_bit_eq_div unat_div)
  finally show ?thesis .
qed

lemma encode_lo: "(ucast (v::16 word) :: 8 word) = of_nat (unat v)"
  by simp

lemma total_length_trunc: "(ucast ((of_nat n :: 64 word) + 6) :: 16 word) = of_nat (n + 6)"
proof -
  have a: "(of_nat n :: 64 word) + 6 = of_nat (n + 6)" by simp
  have b: "(ucast (of_nat k :: 64 word) :: 16 word) = of_nat k" for k
    by (rule bit_word_eqI) (auto simp: bit_simps)
  show ?thesis unfolding a by (rule b)
qed

lemma mod_div_256: "(n::nat) mod 65536 div 256 = n div 256 mod 256"
proof -
  have "n mod (256 * 256) div 256 = n div 256 mod 256"
    by (simp only: mod_mult2_eq)
  then show ?thesis by simp
qed

lemma mod_mod_256: "(n::nat) mod 65536 mod 256 = n mod 256"
  by (rule mod_mod_cancel) simp

lemma hi_byte_of_nat:
  "(ucast (drop_bit 8 (of_nat n :: 16 word)) :: 8 word) = of_nat (n div 256 mod 256)"
  by (simp add: encode_hi unat_of_nat mod_div_256)

lemma lo_byte_mod: "(of_nat (n mod 256) :: 8 word) = of_nat n"
  by (simp add: word_of_nat_eq_iff take_bit_eq_mod)

lemma lo_byte_of_nat:
  "(ucast (of_nat n :: 16 word) :: 8 word) = of_nat (n mod 256)"
proof -
  have "(ucast (of_nat n :: 16 word) :: 8 word) = of_nat (unat (of_nat n :: 16 word))"
    by simp
  also have "\<dots> = of_nat (n mod 65536)"
    by (simp only: unat_of_nat) simp
  also have "\<dots> = of_nat (n mod 65536 mod 256)"
    by (simp only: lo_byte_mod)
  finally show ?thesis by (simp only: mod_mod_256)
qed

lemma unat_hi_lo:
  "256 * unat (ucast (drop_bit 8 v) :: 8 word) + unat (ucast v :: 8 word) = unat (v :: 16 word)"
proof -
  have v: "unat v < 65536" using unsigned_less[of v, where 'a=nat] by simp
  then have "unat v div 256 < 256" by simp
  then have hi: "unat (ucast (drop_bit 8 v) :: 8 word) = unat v div 256"
    by (simp add: encode_hi unat_of_nat)
  have "(ucast v :: 8 word) = of_nat (unat v)" by simp
  then have lo: "unat (ucast v :: 8 word) = unat v mod 256"
    by (simp only: unat_of_nat) simp
  show ?thesis by (simp add: hi lo)
qed

lemma wire_id_eq:
  "push_bit 8 (ucast (c::8 word)) OR ucast (d::8 word) = (i::16 word) \<longleftrightarrow> 256 * unat c + unat d = unat i"
  by (simp add: word_unat_eq_iff unat_be16)

subsection \<open>The header parse\<close>

lemma length_ge6E:
  assumes "6 \<le> length (data :: 'a list)"
  obtains a b c d e f rest where "data = a # b # c # d # e # f # rest"
proof -
  from assms have "\<exists>a b c d e f rest. data = a # b # c # d # e # f # rest"
    by (auto simp: eval_nat_numeral Suc_le_length_iff)
  then show ?thesis using that by blast
qed

lemma UnpackSome_ok:
  assumes "6 \<le> length data"
  shows "UnpackSome data =
     (6, None, \<lparr>headerLen = data ! 0, version = data ! 1,
                srvID = push_bit 8 (ucast (data ! 2)) OR ucast (data ! 3),
                totalLen = push_bit 8 (ucast (data ! 4)) OR ucast (data ! 5)\<rparr>)"
proof -
  from assms obtain a b c d e f rest where "data = a # b # c # d # e # f # rest"
    by (rule length_ge6E)
  then show ?thesis by (simp add: UnpackSome_header)
qed

lemma UnpackSome_short:
  assumes "length data < 6"
  shows "\<exists>h. UnpackSome data = (short_count (length data), Some ErrUnexpectedEOF, h)"
proof -
  from assms have "data = [] \<or> (\<exists>a. data = [a]) \<or> (\<exists>a b. data = [a, b])
      \<or> (\<exists>a b c. data = [a, b, c]) \<or> (\<exists>a b c d. data = [a, b, c, d])
      \<or> (\<exists>a b c d e. data = [a, b, c, d, e])"
    by (auto simp: less_Suc_eq eval_nat_numeral length_Suc_conv)
  then show ?thesis
    by (auto simp: UnpackSome_def short_count_def)
qed

lemma Unpack_short_input:
  assumes "length data < 6"
  shows "Unpack up data srv = ((short_count (length data), Some ErrUnexpectedEOF), srv)"
proof -
  from UnpackSome_short[OF assms] obtain h :: header
    where "(UnpackSome data :: 64 word \<times> 'a error option \<times> header)
             = (short_count (length data), Some ErrUnexpectedEOF, h)"
    by blast
  then show ?thesis by (simp add: Unpack_def)
qed

subsection \<open>Dispatch\<close>

lemma registry_service_of_kind: "registry (service_of_kind k) = Some k"
  by (cases k) (simp_all add: registry_def service_consts)

lemma Unpack_valid_header:
  assumes "6 \<le> length data" "data ! 0 = 6" "data ! 1 = 16"
  shows "Unpack up data srv =
    (case registry (push_bit 8 (ucast (data ! 2)) OR ucast (data ! 3)) of
       None \<Rightarrow> ((6, Some ErrUnknownService), srv)
     | Some k \<Rightarrow>
         (case up k (drop 6 data) of
            (m, err, body) \<Rightarrow> ((6 + m, err), if err = None then Some (Srv k body) else srv)))"
  using assms by (simp add: Unpack_def UnpackSome_ok split: option.split)

lemma Unpack_dispatch:
  assumes "6 \<le> length data" "data ! 0 = 6" "data ! 1 = 16"
    and "256 * unat (data ! 2) + unat (data ! 3) = unat (service_of_kind k)"
    and "up k (drop 6 data) = (m, err, body)"
  shows "Unpack up data srv = ((6 + m, err), if err = None then Some (Srv k body) else srv)"
proof -
  have "push_bit 8 (ucast (data ! 2)) OR ucast (data ! 3) = service_of_kind k"
    using assms(4) by (simp add: wire_id_eq)
  then show ?thesis
    using assms by (simp add: Unpack_valid_header registry_service_of_kind)
qed

subsection \<open>What \<open>Pack\<close> hands to an in-memory sink\<close>

lemma Pack_buffer_writer:
  assumes "WriteTo srv = (body, None)"
  shows "Pack buffer_writer s srv =
    (s @ [6, 16] @ encode_uint16 (Service srv) @ encode_uint16 (of_nat (length body + 6)) @ body,
     of_nat (length body + 6), None)"
  using assms
  by (simp add: Pack_def buffer_writer_def encode_uint8_def encode_uint16_def total_length_trunc)

section \<open>The claims\<close>

text \<open>
  C1, as the specification states it: a buffer whose byte 0 is not 6 fails with the
  header-length error and the count returned is 1 (at least 1, at most up through
  byte 0). This fails on the code. \<open>Unpack\<close> parses all four header fields before it
  compares \<open>headerLen\<close> with 6, so on the 6-byte buffer below the count is 6; and on the
  1-byte buffer the parse of the header itself fails first, with the short-input error.
\<close>

theorem Unpack_header_length_count_counterexample:
  "([5, 16, 2, 5, 0, 6] :: byte list) ! 0 \<noteq> 6
   \<and> Unpack pair_body_Unpack [5, 16, 2, 5, 0, 6] None = ((6, Some ErrHeaderLength), None)
   \<and> fst (fst (Unpack pair_body_Unpack [5, 16, 2, 5, 0, 6] None)) \<noteq> 1
   \<and> ([5] :: byte list) ! 0 \<noteq> 6
   \<and> Unpack pair_body_Unpack [5] None = ((1, Some ErrUnexpectedEOF), None)"
  by (simp add: Unpack_def UnpackSome_def)

text \<open>
  C1, amended: for every buffer of at least 6 bytes whose byte 0 is not 6, \<open>Unpack\<close>
  fails with the header-length error, returns 6 as the consumed-byte count (the whole
  header was parsed before the check) and leaves the output slot as it was.
\<close>

theorem Unpack_header_length_error:
  assumes "6 \<le> length data" and "data ! 0 \<noteq> 6"
  shows "Unpack up data srv = ((6, Some ErrHeaderLength), srv)"
  using assms by (simp add: Unpack_def UnpackSome_ok)

theorem Unpack_header_length_error_witness:
  "6 \<le> length ([7, 16, 2, 5, 0, 8, 1, 2] :: byte list)
   \<and> ([7, 16, 2, 5, 0, 8, 1, 2] :: byte list) ! 0 \<noteq> 6
   \<and> Unpack pair_body_Unpack [7, 16, 2, 5, 0, 8, 1, 2] None = ((6, Some ErrHeaderLength), None)"
  using Unpack_header_length_error
    [where data = "[7, 16, 2, 5, 0, 8, 1, 2]" and up = pair_body_Unpack and srv = None]
  by simp

text \<open>
  C2, round trip: let \<open>x\<close> be a message of kind \<open>k\<close> with contents \<open>b\<close> that meets the
  collaborator contract, that is, its serializer succeeds with some bytes and the
  parser of its kind reads those bytes back as \<open>b\<close>. Then \<open>Pack\<close> into an in-memory sink
  succeeds, and \<open>Unpack\<close> of the packet succeeds, consumes the header and the body, and
  fills the slot with a message of the same kind (hence the same ServiceID) and the same
  contents.
\<close>

theorem Pack_Unpack_round_trip:
  assumes "body_WriteTo k b = (bytes, None)"
    and "body_Unpack k bytes = (m, None, b)"
  shows "snd (snd (Pack buffer_writer [] (payload_of body_WriteTo (Srv k b)))) = None
       \<and> Unpack body_Unpack (fst (Pack buffer_writer [] (payload_of body_WriteTo (Srv k b)))) srv
            = ((6 + m, None), Some (Srv k b))"
proof -
  let ?x = "payload_of body_WriteTo (Srv k b)"
  have w: "WriteTo ?x = (bytes, None)" and s: "Service ?x = service_of_kind k"
    using assms(1) by (simp_all add: payload_of_def)
  let ?pkt = "[6, 16] @ encode_uint16 (service_of_kind k)
                @ encode_uint16 (of_nat (length bytes + 6)) @ bytes"
  have p: "Pack buffer_writer [] ?x = (?pkt, of_nat (length bytes + 6), None)"
    using Pack_buffer_writer[OF w, of "[]"] by (simp add: s)
  have id: "256 * unat (?pkt ! 2) + unat (?pkt ! 3) = unat (service_of_kind k)"
    by (simp add: encode_uint16_def unat_hi_lo)
  have "Unpack body_Unpack ?pkt srv = ((6 + m, None), Some (Srv k b))"
    using Unpack_dispatch[where data = ?pkt and k = k and up = body_Unpack
        and m = m and err = None and body = b and srv = srv] id assms(2)
    by (simp add: encode_uint16_def)
  with p show ?thesis by simp
qed

theorem Pack_Unpack_round_trip_witness:
  "pair_body_WriteTo TunnelReq (1, 2) = ([1, 2], None)
   \<and> pair_body_Unpack TunnelReq [1, 2] = (2, None, (1, 2))
   \<and> fst (Pack buffer_writer [] (payload_of pair_body_WriteTo (Srv TunnelReq (1, 2))))
        = [6, 16, 4, 32, 0, 8, 1, 2]
   \<and> Unpack pair_body_Unpack [6, 16, 4, 32, 0, 8, 1, 2] None
        = ((8, None), Some (Srv TunnelReq (1, 2)))"
proof -
  have p: "fst (Pack buffer_writer [] (payload_of pair_body_WriteTo (Srv TunnelReq (1, 2))))
        = [6, 16, 4, 32, 0, 8, 1, 2]"
    by (simp add: Pack_def payload_of_def buffer_writer_def encode_uint8_def encode_uint16_def
        TunnelReqService_def)
  show ?thesis
    using Pack_Unpack_round_trip
      [where body_WriteTo = pair_body_WriteTo and body_Unpack = pair_body_Unpack
         and k = TunnelReq and b = "(1, 2)" and bytes = "[1, 2]" and m = 2 and srv = None]
    by (simp add: p)
qed

text \<open>
  C3: when the payload's own serialization fails, \<open>Pack\<close> returns 0 and the payload's
  error as it is, and the sink is in the state it was in before the call, whatever
  sink it is: the sink is never written to, also not with the bytes that the payload
  had produced before it failed.
\<close>

theorem Pack_serialization_failure:
  assumes "WriteTo srv = (partial, Some err)"
  shows "Pack w s srv = (s, 0, Some err)"
  using assms by (simp add: Pack_def)

theorem Pack_serialization_failure_witness:
  "WriteTo (payload_of pair_body_WriteTo (Srv ConnReq (255, 7)))
     = ([255], Some (ErrCollaborator ''reserved''))
   \<and> Pack buffer_writer [9] (payload_of pair_body_WriteTo (Srv ConnReq (255, 7)))
     = ([9], 0, Some (ErrCollaborator ''reserved''))"
proof -
  have h: "WriteTo (payload_of pair_body_WriteTo (Srv ConnReq (255, 7)))
     = ([255], Some (ErrCollaborator ''reserved''))"
    by (simp add: payload_of_def)
  show ?thesis
    using h Pack_serialization_failure[OF h, of buffer_writer "[9]"] by simp
qed

text \<open>
  C4: when the payload serializes to a body of \<open>n\<close> bytes, \<open>Pack\<close> appends to an
  in-memory sink, in this order, the byte 6, the byte 16, the high and the low byte of
  the payload's ServiceID, the high and the low byte of \<open>n + 6\<close> as a 16-bit integer,
  and the \<open>n\<close> body bytes; it returns \<open>n + 6\<close> and no error.
\<close>

theorem Pack_wire_format:
  assumes "WriteTo srv = (body, None)"
  shows "Pack buffer_writer s srv =
    (s @ [6, 16,
          of_nat (unat (Service srv) div 256), of_nat (unat (Service srv) mod 256),
          of_nat ((length body + 6) div 256 mod 256), of_nat ((length body + 6) mod 256)] @ body,
     of_nat (length body + 6), None)"
proof -
  have sid: "encode_uint16 (Service srv) =
      [of_nat (unat (Service srv) div 256), of_nat (unat (Service srv) mod 256)]"
    by (simp add: encode_uint16_def encode_hi lo_byte_mod)
  have len: "encode_uint16 (of_nat (length body + 6)) =
      [of_nat ((length body + 6) div 256 mod 256), of_nat ((length body + 6) mod 256)]"
    by (simp only: encode_uint16_def hi_byte_of_nat lo_byte_of_nat)
  show ?thesis
    by (simp only: Pack_buffer_writer[OF assms] sid len) simp
qed

theorem Pack_wire_format_witness:
  "WriteTo (payload_of pair_body_WriteTo (Srv RoutingBusy (1, 2))) = ([1, 2], None)
   \<and> Pack buffer_writer [] (payload_of pair_body_WriteTo (Srv RoutingBusy (1, 2)))
     = ([6, 16, 5, 50, 0, 8, 1, 2], 8, None)"
proof -
  have h: "WriteTo (payload_of pair_body_WriteTo (Srv RoutingBusy (1, 2))) = ([1, 2], None)"
    by (simp add: payload_of_def)
  have s: "Service (payload_of pair_body_WriteTo (Srv RoutingBusy (1, 2))) = 1330"
    by (simp add: payload_of_def RoutingBusyService_def)
  show ?thesis
    using h Pack_wire_format[OF h, of "[]"] by (simp add: s)
qed

text \<open>
  C5: a buffer with a valid header (at least 6 bytes, byte 0 is 6, byte 1 is 16) whose
  bytes 2 and 3 carry the identifier of kind \<open>k\<close> is handed, from byte 6 on, to the
  parser of kind \<open>k\<close>; when that parser succeeds having consumed \<open>m\<close> bytes, \<open>Unpack\<close>
  stores the message of kind \<open>k\<close> in the slot and returns \<open>6 + m\<close> and no error.
\<close>

theorem Unpack_dispatch_success:
  assumes "6 \<le> length data" and "data ! 0 = 6" and "data ! 1 = 16"
    and "256 * unat (data ! 2) + unat (data ! 3) = unat (service_of_kind k)"
    and "up k (drop 6 data) = (m, None, body)"
  shows "Unpack up data srv = ((6 + m, None), Some (Srv k body))"
  using assms
    Unpack_dispatch[where up = up and data = data and k = k and m = m and err = None
      and body = body and srv = srv]
  by simp

theorem Unpack_dispatch_success_witness:
  "6 \<le> length ([6, 16, 2, 10, 0, 8, 1, 2, 3] :: byte list)
   \<and> 256 * unat (2 :: byte) + unat (10 :: byte) = unat (service_of_kind DiscRes)
   \<and> pair_body_Unpack DiscRes [1, 2, 3] = (2, None, (1, 2))
   \<and> Unpack pair_body_Unpack [6, 16, 2, 10, 0, 8, 1, 2, 3] None
        = ((8, None), Some (Srv DiscRes (1, 2)))"
  using Unpack_dispatch_success
    [where data = "[6, 16, 2, 10, 0, 8, 1, 2, 3]" and k = DiscRes and up = pair_body_Unpack
       and m = 2 and body = "(1, 2)" and srv = None]
  by (simp add: DiscResService_def)

text \<open>
  C6: a buffer with a well-formed header whose identifier in bytes 2 and 3 is none of
  the eleven known values fails with the unknown-service-identifier error; the count
  returned is 6 and the slot is as it was.
\<close>

theorem Unpack_unknown_service:
  assumes "6 \<le> length data" and "data ! 0 = 6" and "data ! 1 = 16"
    and "256 * unat (data ! 2) + unat (data ! 3) \<notin>
          {0x0205, 0x0206, 0x0207, 0x0208, 0x0209, 0x020a, 0x0420, 0x0421, 0x0530, 0x0531, 0x0532}"
  shows "Unpack up data srv = ((6, Some ErrUnknownService), srv)"
proof -
  let ?i = "push_bit 8 (ucast (data ! 2)) OR ucast (data ! 3) :: 16 word"
  have "unat ?i = 256 * unat (data ! 2) + unat (data ! 3)"
    by (rule unat_be16)
  with assms(4) have "registry ?i = None"
    by (auto simp: registry_def service_consts word_unat_eq_iff)
  then show ?thesis
    using assms by (simp add: Unpack_valid_header)
qed

theorem Unpack_unknown_service_witness:
  "6 \<le> length ([6, 16, 2, 4, 0, 8, 1, 2] :: byte list)
   \<and> 256 * unat (2 :: byte) + unat (4 :: byte) \<notin>
          {0x0205, 0x0206, 0x0207, 0x0208, 0x0209, 0x020a, 0x0420, 0x0421, 0x0530, 0x0531, 0x0532}
   \<and> Unpack pair_body_Unpack [6, 16, 2, 4, 0, 8, 1, 2] None = ((6, Some ErrUnknownService), None)"
  using Unpack_unknown_service
    [where data = "[6, 16, 2, 4, 0, 8, 1, 2]" and up = pair_body_Unpack and srv = None]
  by simp

text \<open>
  C7: a buffer with a valid header and the identifier of kind \<open>k\<close> whose body parser
  fails with an error \<open>e\<close> after reporting \<open>m\<close> bytes consumed makes \<open>Unpack\<close> return
  \<open>6 + m\<close> and that same error \<open>e\<close>.
\<close>

theorem Unpack_body_failure:
  assumes "6 \<le> length data" and "data ! 0 = 6" and "data ! 1 = 16"
    and "256 * unat (data ! 2) + unat (data ! 3) = unat (service_of_kind k)"
    and "up k (drop 6 data) = (m, Some e, body)"
  shows "fst (Unpack up data srv) = (6 + m, Some e)"
  using assms
    Unpack_dispatch[where up = up and data = data and k = k and m = m and err = "Some e"
      and body = body and srv = srv]
  by simp

theorem Unpack_body_failure_witness:
  "6 \<le> length ([6, 16, 4, 33, 0, 8, 1] :: byte list)
   \<and> 256 * unat (4 :: byte) + unat (33 :: byte) = unat (service_of_kind TunnelRes)
   \<and> pair_body_Unpack TunnelRes [1] = (1, Some ErrUnexpectedEOF, (1, 0))
   \<and> fst (Unpack pair_body_Unpack [6, 16, 4, 33, 0, 8, 1] None) = (7, Some ErrUnexpectedEOF)"
  using Unpack_body_failure
    [where data = "[6, 16, 4, 33, 0, 8, 1]" and k = TunnelRes and up = pair_body_Unpack
       and m = 1 and e = ErrUnexpectedEOF and body = "(1, 0)" and srv = None]
  by (simp add: TunnelResService_def)

text \<open>
  C8: the total-length field does not influence \<open>Unpack\<close>. Two buffers of the same
  length that agree at every index other than 4 and 5 give the same count, the same
  error and the same slot contents.
\<close>

theorem Unpack_ignores_total_length:
  assumes len: "length d1 = length d2"
    and same: "\<forall>i < length d1. i \<noteq> 4 \<and> i \<noteq> 5 \<longrightarrow> d1 ! i = d2 ! i"
  shows "Unpack up d1 srv = Unpack up d2 srv"
proof (cases "6 \<le> length d1")
  case True
  with len have 2: "6 \<le> length d2" by simp
  have rest: "drop 6 d1 = drop 6 d2"
    by (rule nth_equalityI) (use len same True in auto)
  have pre: "d1 ! i = d2 ! i" if "i < 4" for i
    using same True that by simp
  have hd: "d1 ! 0 = d2 ! 0" "d1 ! 1 = d2 ! 1" "d1 ! 2 = d2 ! 2" "d1 ! 3 = d2 ! 3"
    using pre[of 0] pre[of 1] pre[of 2] pre[of 3] by simp_all
  show ?thesis
    using True 2 hd rest by (simp add: Unpack_def UnpackSome_ok split: option.split)
next
  case False
  then show ?thesis
    using len by (simp add: Unpack_short_input)
qed

theorem Unpack_ignores_total_length_witness:
  "length ([6, 16, 2, 5, 0, 8, 1, 2] :: byte list) = length ([6, 16, 2, 5, 255, 255, 1, 2] :: byte list)
   \<and> Unpack pair_body_Unpack [6, 16, 2, 5, 0, 8, 1, 2] None
        = Unpack pair_body_Unpack [6, 16, 2, 5, 255, 255, 1, 2] None
   \<and> Unpack pair_body_Unpack [6, 16, 2, 5, 255, 255, 1, 2] None
        = ((8, None), Some (Srv ConnReq (1, 2)))"
proof -
  have h: "\<forall>i < length ([6, 16, 2, 5, 0, 8, 1, 2] :: byte list). i \<noteq> 4 \<and> i \<noteq> 5 \<longrightarrow>
         ([6, 16, 2, 5, 0, 8, 1, 2] :: byte list) ! i = [6, 16, 2, 5, 255, 255, 1, 2] ! i"
    by (simp add: nth_Cons' )
  have v: "Unpack pair_body_Unpack [6, 16, 2, 5, 0, 8, 1, 2] None
        = ((8, None), Some (Srv ConnReq (1, 2)))"
    by (simp add: Unpack_def UnpackSome_def registry_def service_consts)
  show ?thesis
    using h v Unpack_ignores_total_length
      [where ?d1.0 = "[6, 16, 2, 5, 0, 8, 1, 2]" and ?d2.0 = "[6, 16, 2, 5, 255, 255, 1, 2]"
         and up = pair_body_Unpack and srv = None]
    by simp
qed

text \<open>
  C9: whenever \<open>Unpack\<close> returns an error, whichever it is, the output slot holds what
  it held before the call.
\<close>

theorem Unpack_failure_keeps_slot:
  assumes "snd (fst (Unpack up data srv)) \<noteq> None"
  shows "snd (Unpack up data srv) = srv"
  using assms unfolding Unpack_def by (auto split: prod.splits option.splits if_splits)

theorem Unpack_failure_keeps_slot_witness:
  "snd (fst (Unpack pair_body_Unpack [6, 16, 4, 33, 0, 8, 1] (Some (Srv ConnReq (3, 4))))) \<noteq> None
   \<and> snd (Unpack pair_body_Unpack [6, 16, 4, 33, 0, 8, 1] (Some (Srv ConnReq (3, 4))))
        = Some (Srv ConnReq (3, 4))"
proof -
  have h: "snd (fst (Unpack pair_body_Unpack [6, 16, 4, 33, 0, 8, 1] (Some (Srv ConnReq (3, 4)))))
      \<noteq> None"
    by (simp add: Unpack_def UnpackSome_def registry_def service_consts)
  show ?thesis
    using h Unpack_failure_keeps_slot[OF h] by simp
qed

text \<open>
  C10: the two bytes of the total-length field in the packet that \<open>Pack\<close> writes hold
  the body length plus 6 modulo \<open>2 ^ 16\<close>. For a body of 65530 bytes or more this is
  not the length of the packet.
\<close>

theorem Pack_total_length_wraps:
  assumes "WriteTo srv = (body, None)"
  shows "256 * unat (fst (Pack buffer_writer [] srv) ! 4) + unat (fst (Pack buffer_writer [] srv) ! 5)
           = (length body + 6) mod 65536
       \<and> (65530 \<le> length body \<longrightarrow>
            256 * unat (fst (Pack buffer_writer [] srv) ! 4) + unat (fst (Pack buffer_writer [] srv) ! 5)
              \<noteq> length (fst (Pack buffer_writer [] srv)))"
proof -
  let ?pkt = "fst (Pack buffer_writer [] srv)"
  let ?tl = "of_nat (length body + 6) :: 16 word"
  have 4: "?pkt ! 4 = ucast (drop_bit 8 ?tl)" and 5: "?pkt ! 5 = ucast ?tl"
    by (simp_all add: Pack_buffer_writer[OF assms] encode_uint16_def)
  have "256 * unat (?pkt ! 4) + unat (?pkt ! 5) = unat ?tl"
    by (simp only: 4 5 unat_hi_lo)
  also have "\<dots> = (length body + 6) mod 65536"
    by (simp only: unat_of_nat) simp
  finally have field: "256 * unat (?pkt ! 4) + unat (?pkt ! 5) = (length body + 6) mod 65536" .
  have total: "length ?pkt = length body + 6"
    by (simp add: Pack_buffer_writer[OF assms] encode_uint16_def)
  have "(length body + 6) mod 65536 < 65536" by simp
  then have "65530 \<le> length body \<Longrightarrow> (length body + 6) mod 65536 \<noteq> length body + 6"
    by linarith
  with field total show ?thesis by simp
qed

theorem Pack_total_length_wraps_witness:
  "WriteTo bulk_payload = (replicate 65530 0, None)
   \<and> 65530 \<le> length (replicate 65530 (0 :: byte))
   \<and> 256 * unat (fst (Pack buffer_writer [] bulk_payload) ! 4)
        + unat (fst (Pack buffer_writer [] bulk_payload) ! 5) = 0
   \<and> 256 * unat (fst (Pack buffer_writer [] bulk_payload) ! 4)
        + unat (fst (Pack buffer_writer [] bulk_payload) ! 5)
        \<noteq> length (fst (Pack buffer_writer [] bulk_payload))"
proof -
  have h: "WriteTo bulk_payload = (replicate 65530 0, None)"
    by (simp add: bulk_payload_def)
  note t = Pack_total_length_wraps[OF h]
  have a: "256 * unat (fst (Pack buffer_writer [] bulk_payload) ! 4)
        + unat (fst (Pack buffer_writer [] bulk_payload) ! 5) = 0"
    using t by simp
  have b: "256 * unat (fst (Pack buffer_writer [] bulk_payload) ! 4)
        + unat (fst (Pack buffer_writer [] bulk_payload) ! 5)
        \<noteq> length (fst (Pack buffer_writer [] bulk_payload))"
    by (rule t[THEN conjunct2, THEN mp]) simp
  show ?thesis
    by (intro conjI) (rule h, simp, rule a, rule b)
qed

end
